theory Spec2Isabelle
  imports Main "HOL-Library.Word"
begin

section \<open>Python objects: pipelines, modules, exceptions\<close>

text \<open>
  The notebook \<^verbatim>\<open>03_ControlNet_Generate.ipynb\<close> defines one function of its own,
  \<^verbatim>\<open>optimize_pipeline\<close>. It works on a pipeline object by reflection
  (\<^verbatim>\<open>dir\<close>, \<^verbatim>\<open>getattr\<close>, \<^verbatim>\<open>setattr\<close>) and mutates both the
  pipeline (its attribute bindings) and the modules the attributes refer to
  (\<^verbatim>\<open>.eval()\<close>, \<^verbatim>\<open>ipex.optimize(..., inplace=True)\<close>). Objects therefore live in
  a store and are passed by reference.
\<close>

type_synonym addr = nat
type_synonym dtype = string

text \<open>
  Exception classes. \<^verbatim>\<open>RecursionError\<close> is a subclass of \<^verbatim>\<open>RuntimeError\<close> and is
  not told apart from it: the only handler of the repository names \<^verbatim>\<open>AttributeError\<close>.
\<close>

datatype exn = AttributeError | ValueError | RuntimeError | OSError | MemoryError

text \<open>
  A \<^verbatim>\<open>torch.nn.Module\<close> in the store: the \<^verbatim>\<open>training\<close> flag, its immediate
  submodules (\<^verbatim>\<open>children()\<close>, by reference, so that a module can be shared), the
  exception its \<^verbatim>\<open>train\<close> method raises when its class overrides the method to
  refuse, what reading its \<^verbatim>\<open>dtype\<close> attribute gives (a plain \<^verbatim>\<open>nn.Module\<close> has
  none and raises \<^verbatim>\<open>AttributeError\<close>; a property getter may raise anything), and a
  record of what \<^verbatim>\<open>ipex.optimize\<close> did to it (\<open>None\<close>: never optimized).
\<close>

record module =
  training :: bool
  children :: "addr list"
  eval_raises :: "exn option"
  mod_dtype :: "exn + dtype"
  ipex_optimized :: "dtype option"

text \<open>
  A Python value held by an attribute: a reference to a module; any other object
  (\<^verbatim>\<open>None\<close>, a scheduler, a tokenizer, a bound method, ...), identified by a tag and
  carrying what reading its \<^verbatim>\<open>dtype\<close> attribute gives; or a dictionary of values, as
  the \<^verbatim>\<open>components\<close> of a pipeline.
\<close>

datatype pyval = Module addr | Other nat "exn + dtype" | Dict "(string \<times> pyval) list"

text \<open>
  An object seen through reflection.
  \<^item> \<open>dir_list\<close> is what \<^verbatim>\<open>dir(obj)\<close> gives: the list of names, or the exception
    that a \<^verbatim>\<open>__dir__\<close> raises.
  \<^item> \<open>attrs\<close> is what reading a stored attribute gives: its value, or the exception
    raised (\<^verbatim>\<open>AttributeError\<close> for a name that does not resolve).
  \<^item> \<open>read_only\<close> are the names of the properties without a setter. Reading one runs
    its \<open>getter\<close> on the stored attributes, so its value follows them (the
    \<^verbatim>\<open>components\<close> of a pipeline, or an attribute that a \<^verbatim>\<open>__setattr__\<close> hook keeps
    in step with the stored ones, as the configuration of a pipeline); the getter may raise
    anything. \<^verbatim>\<open>setattr\<close> on such a name raises \<^verbatim>\<open>AttributeError\<close>.
  \<^item> \<open>set_raises\<close> is the exception, if any, with which \<^verbatim>\<open>setattr\<close> refuses any
    other name (a \<^verbatim>\<open>__setattr__\<close> that validates, \<^verbatim>\<open>__slots__\<close>, ...).
\<close>

record pobject =
  dir_list :: "exn + string list"
  attrs :: "string \<Rightarrow> exn + pyval"
  read_only :: "string list"
  getter :: "string \<Rightarrow> (string \<Rightarrow> exn + pyval) \<Rightarrow> exn + pyval"
  set_raises :: "string \<Rightarrow> exn option"

text \<open>
  The store: the objects, the modules, and how many nested calls the interpreter still
  allows before it raises \<^verbatim>\<open>RecursionError\<close>.
\<close>

record state =
  objs :: "addr \<Rightarrow> pobject"
  mods :: "addr \<Rightarrow> module"
  recursion_limit :: nat

text \<open>
  \<^verbatim>\<open>ipex.optimize(model, dtype=..., inplace=True)\<close> is external: it is a parameter of
  the model. It receives the module store, the module and the dtype; it returns the
  optimized model or raises, and leaves the module store as it made it.
\<close>

type_synonym optimizer =
  "(addr \<Rightarrow> module) \<Rightarrow> addr \<Rightarrow> dtype \<Rightarrow> (exn + pyval) \<times> (addr \<Rightarrow> module)"

definition getattr :: "state \<Rightarrow> addr \<Rightarrow> string \<Rightarrow> exn + pyval" where
  "getattr s p a =
     (if a \<in> set (read_only (objs s p))
      then getter (objs s p) a (attrs (objs s p))
      else attrs (objs s p) a)"

definition setattr :: "state \<Rightarrow> addr \<Rightarrow> string \<Rightarrow> pyval \<Rightarrow> (exn + unit) \<times> state" where
  "setattr s p a v =
     (if a \<in> set (read_only (objs s p)) then (Inl AttributeError, s)
      else case set_raises (objs s p) a of
             Some e \<Rightarrow> (Inl e, s)
           | None \<Rightarrow>
               (Inr (), s\<lparr>objs := (objs s)(p := (objs s p)\<lparr>attrs := (attrs (objs s p))(a := Inr v)\<rparr>)\<rparr>))"

text \<open>
  \<^verbatim>\<open>nn.Module.eval()\<close> is \<^verbatim>\<open>self.train(False)\<close>, and
  \<^verbatim>\<open>
  def train(self, mode):
      self.training = mode
      for module in self.children():
          module.train(mode)
      return self
  \<close>
  \<open>train_False d h xs\<close> calls \<^verbatim>\<open>train(False)\<close> on the modules \<open>xs\<close> in turn, with
  \<open>d\<close> nested calls left. It stops at the first exception: that of a module whose class
  refuses, or \<^verbatim>\<open>RecursionError\<close> when the submodules nest deeper than the interpreter
  allows (as they do when a module is its own descendant). The flags cleared before the
  exception stay cleared.
\<close>

fun train_False :: "nat \<Rightarrow> (addr \<Rightarrow> module) \<Rightarrow> addr list \<Rightarrow> exn option \<times> (addr \<Rightarrow> module)" where
  "train_False d h [] = (None, h)"
| "train_False 0 h (x # xs) = (Some RuntimeError, h)"
| "train_False (Suc d) h (x # xs) =
     (case eval_raises (h x) of
        Some e \<Rightarrow> (Some e, h)
      | None \<Rightarrow>
          (case train_False d (h(x := (h x)\<lparr>training := False\<rparr>)) (children (h x)) of
             (Some e, h') \<Rightarrow> (Some e, h')
           | (None, h') \<Rightarrow> train_False (Suc d) h' xs))"

text \<open>
  \<^verbatim>\<open>module.eval()\<close> on the module at \<open>x\<close>: the exception it raises, if any, and the
  state it leaves. When it does not raise it returns the module itself.
\<close>

definition eval_error :: "state \<Rightarrow> addr \<Rightarrow> exn option" where
  "eval_error s x = fst (train_False (recursion_limit s) (mods s) [x])"

definition module_eval :: "state \<Rightarrow> addr \<Rightarrow> state" where
  "module_eval s x = s\<lparr>mods := snd (train_False (recursion_limit s) (mods s) [x])\<rparr>"

text \<open>\<^verbatim>\<open>value.dtype\<close>; a dictionary has no such attribute.\<close>

definition get_dtype :: "state \<Rightarrow> pyval \<Rightarrow> exn + dtype" where
  "get_dtype s v =
     (case v of
        Module x \<Rightarrow> mod_dtype (mods s x)
      | Other t d \<Rightarrow> d
      | Dict kvs \<Rightarrow> Inl AttributeError)"

section \<open>optimize\_pipeline\<close>

text \<open>
  The body of the \<^verbatim>\<open>try\<close>:
  \<^verbatim>\<open>
  if isinstance(getattr(pipeline, attr), nn.Module):
      setattr(pipeline, attr,
              ipex.optimize(getattr(pipeline, attr).eval(),
                            dtype=pipeline.text_encoder.dtype, inplace=True))
  \<close>
  Python evaluates the arguments of a call from left to right: the module is fetched and
  put into eval mode, then \<^verbatim>\<open>pipeline.text_encoder\<close> and its \<^verbatim>\<open>dtype\<close> are read,
  then \<^verbatim>\<open>ipex.optimize\<close> runs, and \<^verbatim>\<open>setattr\<close> comes last. The two
  \<^verbatim>\<open>getattr(pipeline, attr)\<close> read the same binding. Each of these calls can raise;
  the state returned with an exception is the state at the moment it was raised.
\<close>

definition optimize_attr :: "optimizer \<Rightarrow> addr \<Rightarrow> string \<Rightarrow> state \<Rightarrow> (exn + unit) \<times> state" where
  "optimize_attr opt p a s =
     (case getattr s p a of
        Inl e \<Rightarrow> (Inl e, s)
      | Inr v \<Rightarrow>
          (case v of
             Module x \<Rightarrow>
               (let s1 = module_eval s x in
                case eval_error s x of
                  Some e \<Rightarrow> (Inl e, s1)
                | None \<Rightarrow>
                    (case getattr s1 p ''text_encoder'' of
                       Inl e \<Rightarrow> (Inl e, s1)
                     | Inr te \<Rightarrow>
                         (case get_dtype s1 te of
                            Inl e \<Rightarrow> (Inl e, s1)
                          | Inr dt \<Rightarrow>
                              (case opt (mods s1) x dt of
                                 (Inl e, h) \<Rightarrow> (Inl e, s1\<lparr>mods := h\<rparr>)
                               | (Inr r, h) \<Rightarrow> setattr (s1\<lparr>mods := h\<rparr>) p a r))))
           | Other t d \<Rightarrow> (Inr (), s)
           | Dict kvs \<Rightarrow> (Inr (), s)))"

text \<open>\<^verbatim>\<open>try: ... except AttributeError: pass\<close>\<close>

definition try_optimize_attr :: "optimizer \<Rightarrow> addr \<Rightarrow> string \<Rightarrow> state \<Rightarrow> (exn + unit) \<times> state" where
  "try_optimize_attr opt p a s =
     (case optimize_attr opt p a s of
        (Inl e, s') \<Rightarrow> if e = AttributeError then (Inr (), s') else (Inl e, s')
      | (Inr u, s') \<Rightarrow> (Inr u, s'))"

text \<open>\<^verbatim>\<open>for attr in ...: try: ... except AttributeError: pass\<close> over a list of names.\<close>

fun sweep :: "optimizer \<Rightarrow> addr \<Rightarrow> string list \<Rightarrow> state \<Rightarrow> (exn + unit) \<times> state" where
  "sweep opt p [] s = (Inr (), s)"
| "sweep opt p (a # as) s =
     (case try_optimize_attr opt p a s of
        (Inl e, s') \<Rightarrow> (Inl e, s')
      | (Inr u, s') \<Rightarrow> sweep opt p as s')"

text \<open>
  \<^verbatim>\<open>dir(pipeline)\<close> is called once, before the loop and outside the \<^verbatim>\<open>try\<close>; the
  function ends with \<^verbatim>\<open>return pipeline\<close>.
\<close>

definition optimize_pipeline :: "optimizer \<Rightarrow> addr \<Rightarrow> state \<Rightarrow> (exn + addr) \<times> state" where
  "optimize_pipeline opt p s =
     (case dir_list (objs s p) of
        Inl e \<Rightarrow> (Inl e, s)
      | Inr names \<Rightarrow>
          (case sweep opt p names s of
             (Inl e, s') \<Rightarrow> (Inl e, s')
           | (Inr u, s') \<Rightarrow> (Inr p, s')))"

text \<open>
  The submodules of a module, the module itself included: what \<^verbatim>\<open>module.modules()\<close>
  yields.
\<close>

inductive submodule :: "(addr \<Rightarrow> module) \<Rightarrow> addr \<Rightarrow> addr \<Rightarrow> bool" where
  self: "submodule h x x"
| child: "c \<in> set (children (h x)) \<Longrightarrow> submodule h c y \<Longrightarrow> submodule h x y"

code_pred submodule .

section \<open>The Canny edge map of the ControlNet notebook\<close>

text \<open>
  \<^verbatim>\<open>
  image = cv2.Canny(image, low_threshold, high_threshold)
  image = image[:, :, None]
  image = np.concatenate([image, image, image], axis=2)
  canny_image = Image.fromarray(image)
  \<close>
  An array is a nested list (rows, then pixels, then channels) of \<^verbatim>\<open>uint8\<close> values.
  \<^verbatim>\<open>cv2.Canny\<close> is external and a parameter. \<^verbatim>\<open>Image.fromarray\<close> keeps the
  pixel values of the array it is given.
\<close>

text \<open>\<^verbatim>\<open>a[:, :, None]\<close>: a new last axis of length one.\<close>

definition new_axis2 :: "'a list list \<Rightarrow> 'a list list list" where
  "new_axis2 a = map (map (\<lambda>v. [v])) a"

text \<open>
  \<^verbatim>\<open>np.concatenate(arrays, axis=2)\<close>: the arrays must agree on axes 0 and 1
  (\<^verbatim>\<open>ValueError\<close> otherwise, and for an empty sequence); the channels of each pixel are
  joined in the order of the arrays.
\<close>

fun concatenate_axis2 :: "'a list list list list \<Rightarrow> exn + 'a list list list" where
  "concatenate_axis2 [] = Inl ValueError"
| "concatenate_axis2 (a # rest) =
     (if \<forall>b\<in>set rest. map length b = map length a
      then Inr (foldl (\<lambda>acc b. map2 (map2 (@)) acc b) a rest)
      else Inl ValueError)"

definition canny_image ::
  "('p list list \<Rightarrow> nat \<Rightarrow> nat \<Rightarrow> 8 word list list) \<Rightarrow> 'p list list \<Rightarrow> exn + 8 word list list list" where
  "canny_image cv2_Canny original_image =
     (let low_threshold = 100;
          high_threshold = 200;
          image1 = cv2_Canny original_image low_threshold high_threshold;
          image2 = new_axis2 image1
      in concatenate_axis2 [image2, image2, image2])"

section \<open>The notebooks as scripts\<close>

text \<open>
  A notebook run top to bottom is a straight-line script. What it does to the outside
  world is the sequence of calls it makes, one event per call, in the order of the cells
  and of the statements in each cell. There is no \<^verbatim>\<open>try\<close> in any cell outside
  \<^verbatim>\<open>optimize_pipeline\<close>; the sequences below are those of a run in which no call
  raises.
\<close>

datatype arg = Str string | Num int | Var string

datatype event =
    SysPathAppend string
  | Print
  | PipInstall "string list"
  | GetDeviceName nat
  | HttpGet string
  | WriteText string
  | Import string
  | Widget string
  | LoadImage string
  | Canny nat nat
  | FromPretrained string string
  | SavePretrained string
  | Compile
  | SetScheduler string
  | To string string
  | OptimizePipeline
  | RandomSeed int
  | Infer "arg list" "(string \<times> arg) list"
  | Display
  | MakeImageGrid
  | ImageSave string
  | Imwrite string

text \<open>
  \<^verbatim>\<open>username = os.environ.get('USER')\<close>,
  \<^verbatim>\<open>user_bin_path = os.path.expanduser(f"/home/{username}/.local/bin")\<close>:
  an unset variable gives \<^verbatim>\<open>None\<close>, which the f-string prints as \<^verbatim>\<open>None\<close>; the path
  does not start with a tilde, so \<^verbatim>\<open>expanduser\<close> returns it as it is.
\<close>

definition user_bin_path :: "string option \<Rightarrow> string" where
  "user_bin_path username =
     ''/home/'' @ (case username of None \<Rightarrow> ''None'' | Some u \<Rightarrow> u) @ ''/.local/bin''"

text \<open>\<^verbatim>\<open>01_Simple_Pytorch_SD.ipynb\<close>; the \<^verbatim>\<open>image.save\<close> of its last cell is commented out.\<close>

definition simple_pytorch_sd :: "string option \<Rightarrow> event list" where
  "simple_pytorch_sd username =
     [SysPathAppend (user_bin_path username),
      Print,
      PipInstall [''diffusers'', ''accelerate'', ''transformers'', ''tqdm''],
      GetDeviceName 0,
      Print,
      FromPretrained ''StableDiffusionPipeline''
        ''/home/common/data/Big_Data/GenAI/runwayml/stable-diffusion-v1-5'',
      To ''pipe'' ''xpu'',
      Infer [Str ''A cat riding a surfboard on a big wave''] [],
      Display]"

text \<open>
  The OpenVINO text-to-image notebook. Its inputs are the \<^verbatim>\<open>USER\<close> variable, whether the
  directory \<^verbatim>\<open>diffusion_pipeline\<close> exists, and the values of the three widgets.
\<close>

definition openvino_sd :: "string option \<Rightarrow> bool \<Rightarrow> string \<Rightarrow> int \<Rightarrow> int \<Rightarrow> event list" where
  "openvino_sd username model_dir_exists text_prompt num_steps seed =
     [SysPathAppend (user_bin_path username),
      Print,
      PipInstall [''openvino>=2023.1.0'', ''git+https://github.com/huggingface/optimum-intel.git''],
      PipInstall [''diffusers>=0.9.0'', ''torch>=2.1''],
      PipInstall [''huggingface-hub>=0.9.1''],
      PipInstall [''transformers'', ''Pillow'', ''opencv-python'', ''tqdm'', ''ipywidgets''],
      HttpGet ''https://raw.githubusercontent.com/openvinotoolkit/openvino_notebooks/latest/utils/notebook_utils.py'',
      WriteText ''notebook_utils.py'',
      Import ''notebook_utils'',
      Widget ''device'']
     @ (if \<not> model_dir_exists
        then [FromPretrained ''OVStableDiffusionPipeline'' ''prompthero/openjourney'',
              SavePretrained ''diffusion_pipeline'']
        else [FromPretrained ''OVStableDiffusionPipeline'' ''diffusion_pipeline''])
     @ [Compile,
        Widget ''text_prompt'',
        Widget ''num_steps'',
        Widget ''seed'',
        Print, Print, Print, Print,
        RandomSeed seed,
        Infer [Str text_prompt] [(''num_inference_steps'', Num num_steps)],
        ImageSave ''result.png'',
        Print, Print,
        Display]"

text \<open>\<^verbatim>\<open>03_ControlNet_Generate.ipynb\<close>: two cells of imports, then the main cell.\<close>

definition controlnet_generate :: "event list" where
  "controlnet_generate =
     [LoadImage ''https://img.freepik.com/premium-photo/house-outline-illustration-white-background_1112329-31710.jpg'',
      Canny 100 200,
      To ''image_tensor'' ''xpu'',
      FromPretrained ''ControlNetModel'' ''lllyasviel/sd-controlnet-canny'',
      FromPretrained ''StableDiffusionControlNetPipeline'' ''runwayml/stable-diffusion-v1-5'',
      SetScheduler ''UniPCMultistepScheduler'',
      To ''pipe'' ''xpu'',
      OptimizePipeline,
      Infer [Str ''Vivid Watercolor''] [(''image'', Var ''canny_image'')],
      MakeImageGrid,
      Imwrite ''house.png'']"

subsection \<open>What a run writes, what it passes to the pipeline, and in which order\<close>

text \<open>
  The calls of the repository's own code that create a file or directory under the name
  given: \<^verbatim>\<open>open(name, "w").write\<close>, \<^verbatim>\<open>save_pretrained\<close>, \<^verbatim>\<open>Image.save\<close> and
  \<^verbatim>\<open>cv2.imwrite\<close>. The last two choose the image format from the extension.
\<close>

fun written :: "event \<Rightarrow> string list" where
  "written (WriteText f) = [f]"
| "written (SavePretrained d) = [d]"
| "written (ImageSave f) = [f]"
| "written (Imwrite f) = [f]"
| "written e = []"

definition files_written :: "event list \<Rightarrow> string list" where
  "files_written evs = concat (map written evs)"

definition is_png :: "string \<Rightarrow> bool" where
  "is_png f = (4 \<le> length f \<and> drop (length f - 4) f = ''.png'')"

fun infer_args :: "event \<Rightarrow> (arg list \<times> (string \<times> arg) list) list" where
  "infer_args (Infer ps ks) = [(ps, ks)]"
| "infer_args e = []"

definition inference_calls :: "event list \<Rightarrow> (arg list \<times> (string \<times> arg) list) list" where
  "inference_calls evs = concat (map infer_args evs)"

text \<open>
  The steps the overview of the notebooks names, and the calls that perform them. Calls
  that belong to none of the six steps have no step.
\<close>

datatype step = Setup | Install | Load | Transfer | Inference | Output

fun step_of :: "event \<Rightarrow> step list" where
  "step_of (SysPathAppend d) = [Setup]"
| "step_of (PipInstall ps) = [Install]"
| "step_of (FromPretrained c m) = [Load]"
| "step_of (To x d) = [Transfer]"
| "step_of (Infer ps ks) = [Inference]"
| "step_of Display = [Output]"
| "step_of (ImageSave f) = [Output]"
| "step_of (Imwrite f) = [Output]"
| "step_of e = []"

definition steps :: "event list \<Rightarrow> step list" where
  "steps evs = concat (map step_of evs)"

text \<open>
  A statement of a cell is a call, or a \<^verbatim>\<open>try\<close> whose handlers name exception classes
  and only \<^verbatim>\<open>pass\<close>. When \<open>raises c\<close> tells which exception, if any, the call \<open>c\<close>
  raises, \<open>exec\<close> runs the statements in order: an exception ends the statements of a
  \<^verbatim>\<open>try\<close> and is dropped there when a handler names it; one that no enclosing handler
  names ends the run and is what the user of the notebook gets. The result is that
  exception, if any, and the calls that completed.
\<close>

datatype stmt = Call event | Try "stmt list" "exn list"

fun exec :: "(event \<Rightarrow> exn option) \<Rightarrow> stmt list \<Rightarrow> exn option \<times> event list" where
  "exec raises [] = (None, [])"
| "exec raises (Call c # ss) =
     (case raises c of
        Some e \<Rightarrow> (Some e, [])
      | None \<Rightarrow> (case exec raises ss of (r, completed) \<Rightarrow> (r, c # completed)))"
| "exec raises (Try body classes # ss) =
     (case exec raises body of
        (Some e, completed) \<Rightarrow>
          if e \<in> set classes
          then (case exec raises ss of (r, completed') \<Rightarrow> (r, completed @ completed'))
          else (Some e, completed)
      | (None, completed) \<Rightarrow>
          (case exec raises ss of (r, completed') \<Rightarrow> (r, completed @ completed')))"

text \<open>
  The statements of the three notebooks. None of them stands in a \<^verbatim>\<open>try\<close>: the only
  \<^verbatim>\<open>try\<close> of the repository is inside the body of \<^verbatim>\<open>optimize_pipeline\<close>, whose
  definition in the main cell of the ControlNet notebook makes no call, and which that cell
  then calls as one plain statement, \<^verbatim>\<open>pipe = optimize_pipeline(pipe)\<close>.
\<close>

definition simple_pytorch_sd_cells :: "string option \<Rightarrow> stmt list" where
  "simple_pytorch_sd_cells username = map Call (simple_pytorch_sd username)"

definition openvino_sd_cells :: "string option \<Rightarrow> bool \<Rightarrow> string \<Rightarrow> int \<Rightarrow> int \<Rightarrow> stmt list" where
  "openvino_sd_cells username model_dir_exists text_prompt num_steps seed =
     map Call (openvino_sd username model_dir_exists text_prompt num_steps seed)"

definition controlnet_generate_cells :: "stmt list" where
  "controlnet_generate_cells = map Call controlnet_generate"

section \<open>Concrete pipelines\<close>

text \<open>
  Small stores to run the model on. The module at 2 has one submodule, at 3; every module
  starts in training mode. The pipelines: one with a scheduler and two modules, the same
  without a text encoder, one whose \<^verbatim>\<open>components\<close> property lists its stored
  attributes, and an object whose \<^verbatim>\<open>__dir__\<close> raises. Three stand-ins for
  \<^verbatim>\<open>ipex.optimize\<close>: one marks the module in place, one returns a marked copy at a
  fresh address, one raises.
\<close>

definition plain_object :: pobject where
  "plain_object =
     \<lparr>dir_list = Inr [], attrs = (\<lambda>n. Inl AttributeError), read_only = [],
      getter = (\<lambda>n f. Inl AttributeError), set_raises = (\<lambda>n. None)\<rparr>"

definition sd_pipeline :: pobject where
  "sd_pipeline =
     plain_object
     \<lparr>dir_list := Inr [''scheduler'', ''text_encoder'', ''unet''],
      attrs := (\<lambda>n. if n = ''scheduler'' then Inr (Other 0 (Inl AttributeError))
                   else if n = ''text_encoder'' then Inr (Module 1)
                   else if n = ''unet'' then Inr (Module 2)
                   else Inl AttributeError)\<rparr>"

definition unet_pipeline :: pobject where
  "unet_pipeline =
     plain_object
     \<lparr>dir_list := Inr [''scheduler'', ''unet''],
      attrs := (\<lambda>n. if n = ''scheduler'' then Inr (Other 0 (Inl AttributeError))
                   else if n = ''unet'' then Inr (Module 2)
                   else Inl AttributeError)\<rparr>"

definition components_pipeline :: pobject where
  "components_pipeline =
     sd_pipeline
     \<lparr>dir_list := Inr [''components'', ''scheduler'', ''text_encoder'', ''unet''],
      read_only := [''components''],
      getter := (\<lambda>n f. if n = ''components''
                        then Inr (Dict (concat (map (\<lambda>k. case f k of Inr v \<Rightarrow> [(k, v)] | Inl e \<Rightarrow> [])
                                                   [''scheduler'', ''text_encoder'', ''unet''])))
                        else Inl AttributeError)\<rparr>"

definition bf16_module :: module where
  "bf16_module =
     \<lparr>training = True, children = [], eval_raises = None,
      mod_dtype = Inr ''torch.bfloat16'', ipex_optimized = None\<rparr>"

definition modules :: "addr \<Rightarrow> module" where
  "modules = (\<lambda>x. bf16_module)(2 := bf16_module\<lparr>children := [3]\<rparr>)"

definition sd_state :: state where
  "sd_state =
     \<lparr>objs = (\<lambda>q. plain_object)(0 := sd_pipeline), mods = modules, recursion_limit = 1000\<rparr>"

definition unet_state :: state where
  "unet_state =
     \<lparr>objs = (\<lambda>q. plain_object)(0 := unet_pipeline), mods = modules, recursion_limit = 1000\<rparr>"

definition components_state :: state where
  "components_state =
     \<lparr>objs = (\<lambda>q. plain_object)(0 := components_pipeline), mods = modules, recursion_limit = 1000\<rparr>"

definition no_dir_state :: state where
  "no_dir_state =
     \<lparr>objs = (\<lambda>q. plain_object\<lparr>dir_list := Inl AttributeError\<rparr>), mods = modules,
      recursion_limit = 1000\<rparr>"

definition ipex_inplace :: optimizer where
  "ipex_inplace h x dt = (Inr (Module x), h(x := (h x)\<lparr>ipex_optimized := Some dt\<rparr>))"

definition ipex_fresh :: optimizer where
  "ipex_fresh h x dt = (Inr (Module (x + 10)), h(x + 10 := (h x)\<lparr>ipex_optimized := Some dt\<rparr>))"

definition ipex_raising :: "exn \<Rightarrow> optimizer" where
  "ipex_raising e h x dt = (Inl e, h)"

definition no_xpu :: "event \<Rightarrow> exn option" where
  "no_xpu c = (if c = To ''pipe'' ''xpu'' then Some RuntimeError else None)"

definition edges_2x2 :: "nat list list \<Rightarrow> nat \<Rightarrow> nat \<Rightarrow> 8 word list list" where
  "edges_2x2 img lo hi = [[0, 255], [255, 0]]"

section \<open>Properties of \<open>train_False\<close>\<close>

text \<open>
  The three ways the call on a non-empty list with calls left can go: the first module
  refuses, a submodule raises, or the first module is done and the rest follows.
\<close>

lemma train_False_SucE:
  assumes "train_False (Suc d) h (x # xs) = (r, h')"
  obtains (refuse) e where "eval_raises (h x) = Some e" "r = Some e" "h' = h"
  | (inner) e where "eval_raises (h x) = None" "r = Some e"
      "train_False d (h(x := (h x)\<lparr>training := False\<rparr>)) (children (h x)) = (Some e, h')"
  | (rest) h1 where "eval_raises (h x) = None"
      "train_False d (h(x := (h x)\<lparr>training := False\<rparr>)) (children (h x)) = (None, h1)"
      "train_False (Suc d) h1 xs = (r, h')"
  using assms by (auto split: option.splits prod.splits)

text \<open>
  Whatever relation holds between a store and itself, between a store and the store with
  one flag cleared, and is transitive, holds between the store before and after.
\<close>

lemma train_False_rel:
  assumes refl: "\<And>h. R h h"
    and step: "\<And>h x. R h (h(x := (h x)\<lparr>training := False\<rparr>))"
    and trans: "\<And>a b c. R a b \<Longrightarrow> R b c \<Longrightarrow> R a c"
  shows "train_False d h xs = (r, h') \<Longrightarrow> R h h'"
proof (induction d h xs arbitrary: r h' rule: train_False.induct)
  case (1 d h)
  then show ?case by (simp add: refl)
next
  case (2 h x xs)
  then show ?case by (simp add: refl)
next
  case (3 d h x xs)
  from "3.prems" show ?case
  proof (cases rule: train_False_SucE)
    case (refuse e)
    then show ?thesis by (simp add: refl)
  next
    case (inner e)
    have "R (h(x := (h x)\<lparr>training := False\<rparr>)) h'"
      using "3.IH"(1) [OF inner(1) inner(3)] .
    then show ?thesis
      using step trans by blast
  next
    case (rest h1)
    have a: "R (h(x := (h x)\<lparr>training := False\<rparr>)) h1"
      using "3.IH"(1) [OF rest(1) rest(2)] .
    have b: "R h1 h'"
      using "3.IH"(2) [OF rest(1) rest(2) [symmetric] HOL.refl rest(3)] .
    from a b show ?thesis
      using step trans by blast
  qed
qed


lemma train_False_fields:
  assumes "train_False d h xs = (r, h')"
  shows "children (h' y) = children (h y) \<and> eval_raises (h' y) = eval_raises (h y)
       \<and> mod_dtype (h' y) = mod_dtype (h y) \<and> ipex_optimized (h' y) = ipex_optimized (h y)"
  using assms
  by (rule train_False_rel [where R = "\<lambda>h h'. children (h' y) = children (h y)
       \<and> eval_raises (h' y) = eval_raises (h y)
       \<and> mod_dtype (h' y) = mod_dtype (h y) \<and> ipex_optimized (h' y) = ipex_optimized (h y)", rotated -1])
     auto

lemma train_False_mono:
  assumes "train_False d h xs = (r, h')"
  shows "\<not> training (h y) \<longrightarrow> \<not> training (h' y)"
  using assms
  by (rule train_False_rel [where R = "\<lambda>h h'. \<not> training (h y) \<longrightarrow> \<not> training (h' y)", rotated -1])
     auto

text \<open>The submodule relation only looks at \<open>children\<close>, which \<open>train_False\<close> keeps.\<close>

lemma submodule_same_children:
  assumes "submodule h x y" and "\<forall>z. children (h2 z) = children (h z)"
  shows "submodule h2 x y"
  using assms
proof (induction rule: submodule.induct)
  case (self h x)
  show ?case by (rule submodule.self)
next
  case (child c h x y)
  then show ?case by (auto intro: submodule.child)
qed

lemma train_False_children:
  "train_False d h xs = (r, h') \<Longrightarrow> \<forall>z. children (h' z) = children (h z)"
  by (simp add: train_False_fields)

text \<open>
  A call that does not raise leaves every submodule of every module of the list in eval
  mode, and no call touches a module that is not such a submodule.
\<close>

lemma train_False_done:
  "train_False d h xs = (None, h') \<Longrightarrow> \<forall>x\<in>set xs. \<forall>y. submodule h x y \<longrightarrow> \<not> training (h' y)"
proof (induction d h xs arbitrary: h' rule: train_False.induct)
  case (1 d h)
  then show ?case by simp
next
  case (2 h x xs)
  then show ?case by simp
next
  case (3 d h x xs)
  let ?h0 = "h(x := (h x)\<lparr>training := False\<rparr>)"
  have shape0: "\<forall>z. children (?h0 z) = children (h z)"
    by simp
  from "3.prems" show ?case
  proof (cases rule: train_False_SucE)
    case (rest h1)
    have shape1: "\<forall>z. children (h1 z) = children (h z)"
      using train_False_children [OF rest(2)] by simp
    have IH1: "\<forall>c\<in>set (children (h x)). \<forall>y. submodule ?h0 c y \<longrightarrow> \<not> training (h1 y)"
      using "3.IH"(1) [OF rest(1) rest(2)] .
    have IH2: "\<forall>x'\<in>set xs. \<forall>y. submodule h1 x' y \<longrightarrow> \<not> training (h' y)"
      using "3.IH"(2) [OF rest(1) rest(2) [symmetric] HOL.refl rest(3)] .
    have later: "\<not> training (h1 y) \<Longrightarrow> \<not> training (h' y)" for y
      using train_False_mono [OF rest(3)] by blast
    have first: "\<not> training (h1 x)"
      using train_False_mono [OF rest(2), of x] by simp
    show ?thesis
    proof (intro ballI allI impI)
      fix x' y
      assume mem: "x' \<in> set (x # xs)" and sub: "submodule h x' y"
      show "\<not> training (h' y)"
      proof (cases "x' \<in> set xs")
        case True
        have "submodule h1 x' y"
          using sub shape1 by (rule submodule_same_children)
        with IH2 True show ?thesis by blast
      next
        case False
        with mem have x': "x' = x" by simp
        from sub [unfolded x'] show ?thesis
        proof (cases rule: submodule.cases)
          case self
          with first later show ?thesis by simp
        next
          case (child c)
          have "submodule ?h0 c y"
            using child(2) shape0 by (rule submodule_same_children)
          with IH1 child(1) have "\<not> training (h1 y)" by blast
          then show ?thesis by (rule later)
        qed
      qed
    qed
  qed simp_all
qed

lemma train_False_frame:
  "train_False d h xs = (r, h') \<Longrightarrow> \<forall>x\<in>set xs. \<not> submodule h x y \<Longrightarrow> h' y = h y"
proof (induction d h xs arbitrary: r h' rule: train_False.induct)
  case (1 d h)
  then show ?case by simp
next
  case (2 h x xs)
  then show ?case by simp
next
  case (3 d h x xs)
  let ?h0 = "h(x := (h x)\<lparr>training := False\<rparr>)"
  have shape0: "\<forall>z. children (h z) = children (?h0 z)"
    by simp
  have ne: "y \<noteq> x"
    using "3.prems"(2) by (auto intro: submodule.self)
  have kids: "\<forall>c\<in>set (children (h x)). \<not> submodule ?h0 c y"
  proof (intro ballI notI)
    fix c
    assume c: "c \<in> set (children (h x))" and sub: "submodule ?h0 c y"
    have "submodule h c y"
      using sub shape0 by (rule submodule_same_children)
    with c have "submodule h x y" by (rule submodule.child)
    with "3.prems"(2) show False by simp
  qed
  from "3.prems"(1) show ?case
  proof (cases rule: train_False_SucE)
    case (refuse e)
    then show ?thesis by simp
  next
    case (inner e)
    have "h' y = ?h0 y"
      using "3.IH"(1) [OF inner(1) inner(3) kids] .
    with ne show ?thesis by simp
  next
    case (rest h1)
    have a: "h1 y = ?h0 y"
      using "3.IH"(1) [OF rest(1) rest(2) kids] .
    have shape1: "\<forall>z. children (h z) = children (h1 z)"
      using train_False_children [OF rest(2)] by simp
    have "\<forall>x'\<in>set xs. \<not> submodule h1 x' y"
    proof (intro ballI notI)
      fix x'
      assume x': "x' \<in> set xs" and sub: "submodule h1 x' y"
      have "submodule h x' y"
        using sub shape1 by (rule submodule_same_children)
      with x' "3.prems"(2) show False by simp
    qed
    then have "h' y = h1 y"
      using "3.IH"(2) [OF rest(1) rest(2) [symmetric] HOL.refl rest(3)] by simp
    with a ne show ?thesis by simp
  qed
qed

text \<open>Whether the call raises does not depend on the training flags.\<close>

lemma train_False_error_shape:
  "\<forall>z. children (h2 z) = children (h z) \<and> eval_raises (h2 z) = eval_raises (h z)
     \<Longrightarrow> fst (train_False d h2 xs) = fst (train_False d h xs)"
proof (induction d h xs arbitrary: h2 rule: train_False.induct)
  case (1 d h)
  then show ?case by simp
next
  case (2 h x xs)
  then show ?case by simp
next
  case (3 d h x xs)
  let ?h0 = "h(x := (h x)\<lparr>training := False\<rparr>)"
  let ?k0 = "h2(x := (h2 x)\<lparr>training := False\<rparr>)"
  have er: "eval_raises (h2 x) = eval_raises (h x)" and ch: "children (h2 x) = children (h x)"
    using "3.prems" by simp_all
  show ?case
  proof (cases "eval_raises (h x)")
    case (Some e)
    with er show ?thesis by simp
  next
    case None
    have shape0: "\<forall>z. children (?k0 z) = children (?h0 z) \<and> eval_raises (?k0 z) = eval_raises (?h0 z)"
      using "3.prems" by simp
    obtain r h1 where run: "train_False d ?h0 (children (h x)) = (r, h1)"
      by (cases "train_False d ?h0 (children (h x))")
    obtain r2 k1 where run2: "train_False d ?k0 (children (h x)) = (r2, k1)"
      by (cases "train_False d ?k0 (children (h x))")
    have "fst (r2, k1) = fst (r, h1)"
      using "3.IH"(1) [OF None shape0] unfolding run run2 .
    then have same: "r2 = r"
      by simp
    show ?thesis
    proof (cases r)
      case (Some e)
      with None er ch run run2 same show ?thesis by simp
    next
      case rNone: None
      have shape1: "\<forall>z. children (k1 z) = children (h1 z) \<and> eval_raises (k1 z) = eval_raises (h1 z)"
        using train_False_fields [OF run] train_False_fields [OF run2] shape0 by simp
      have rest: "fst (train_False (Suc d) k1 xs) = fst (train_False (Suc d) h1 xs)"
        using "3.IH"(2) [OF None run [symmetric] rNone shape1] .
      have L: "train_False (Suc d) h (x # xs) = train_False (Suc d) h1 xs"
        using None run rNone by simp
      have "eval_raises (h2 x) = None"
        using None er by simp
      then have R: "train_False (Suc d) h2 (x # xs) = train_False (Suc d) k1 xs"
        using ch run2 same rNone by simp
      show ?thesis
        unfolding L R by (rule rest)
    qed
  qed
qed

section \<open>Properties of the sweep\<close>

lemmas model_defs = optimize_pipeline_def try_optimize_attr_def optimize_attr_def getattr_def
  setattr_def module_eval_def eval_error_def get_dtype_def

lemmas fixture_defs = sd_state_def unet_state_def components_state_def sd_pipeline_def
  unet_pipeline_def components_pipeline_def plain_object_def bf16_module_def modules_def
  no_dir_state_def ipex_inplace_def ipex_fresh_def ipex_raising_def

lemma train_False_numeral:
  "train_False (numeral k) h (x # xs) =
     (case eval_raises (h x) of
        Some e \<Rightarrow> (Some e, h)
      | None \<Rightarrow>
          (case train_False (pred_numeral k) (h(x := (h x)\<lparr>training := False\<rparr>)) (children (h x)) of
             (Some e, h') \<Rightarrow> (Some e, h')
           | (None, h') \<Rightarrow> train_False (numeral k) h' xs))"
  by (simp only: numeral_eq_Suc train_False.simps)

lemma module_eval_objs [simp]: "objs (module_eval s x) = objs s"
  by (simp add: module_eval_def)

lemma module_eval_limit [simp]: "recursion_limit (module_eval s x) = recursion_limit s"
  by (simp add: module_eval_def)

lemma getattr_module_eval [simp]: "getattr (module_eval s x) p a = getattr s p a"
  by (simp add: getattr_def)

lemma getattr_mods_update [simp]: "getattr (s\<lparr>mods := h\<rparr>) p a = getattr s p a"
  by (simp add: getattr_def)

lemma module_eval_run:
  "train_False (recursion_limit s) (mods s) [x] = (eval_error s x, mods (module_eval s x))"
  by (simp add: eval_error_def module_eval_def)

lemma module_eval_exact:
  assumes "eval_error s x = None"
  shows "mods (module_eval s x) y =
     (if submodule (mods s) x y then (mods s y)\<lparr>training := False\<rparr> else mods s y)"
proof -
  have run: "train_False (recursion_limit s) (mods s) [x] = (None, mods (module_eval s x))"
    using module_eval_run [of s x] assms by simp
  show ?thesis
  proof (cases "submodule (mods s) x y")
    case True
    have "\<not> training (mods (module_eval s x) y)"
      using train_False_done [OF run] True by simp
    then have "mods (module_eval s x) y = (mods s y)\<lparr>training := False\<rparr>"
      using train_False_fields [OF run, of y] by (intro module.equality) simp_all
    with True show ?thesis by simp
  next
    case False
    then have "mods (module_eval s x) y = mods s y"
      using train_False_frame [OF run, of y] by simp
    with False show ?thesis by simp
  qed
qed

lemma module_eval_children:
  "\<forall>z. children (mods (module_eval s x) z) = children (mods s z)
     \<and> eval_raises (mods (module_eval s x) z) = eval_raises (mods s z)"
  using train_False_fields [OF module_eval_run] by simp

lemma eval_error_module_eval: "eval_error (module_eval s x) z = eval_error s z"
  using train_False_error_shape [OF module_eval_children [of s x], of "recursion_limit s" "[z]"]
  by (simp add: eval_error_def)

lemma submodule_module_eval: "submodule (mods (module_eval s x)) z y = submodule (mods s) z y"
proof
  assume "submodule (mods (module_eval s x)) z y"
  moreover have "\<forall>w. children (mods s w) = children (mods (module_eval s x) w)"
    using module_eval_children [of s x] by simp
  ultimately show "submodule (mods s) z y"
    by (rule submodule_same_children)
next
  assume "submodule (mods s) z y"
  moreover have "\<forall>w. children (mods (module_eval s x) w) = children (mods s w)"
    using module_eval_children [of s x] by simp
  ultimately show "submodule (mods (module_eval s x)) z y"
    by (rule submodule_same_children)
qed

lemma module_eval_training:
  "eval_error s x = None \<Longrightarrow> training (mods (module_eval s x) x) = False"
  by (simp add: module_eval_exact submodule.self)

text \<open>The loop over a list of names followed by another.\<close>

lemma sweep_append:
  "sweep opt p (xs @ ys) s =
     (case sweep opt p xs s of (Inl e, s') \<Rightarrow> (Inl e, s') | (Inr u, s') \<Rightarrow> sweep opt p ys s')"
  by (induction xs arbitrary: s) (auto split: prod.splits sum.splits)

text \<open>What one pass through the body of the \<^verbatim>\<open>try\<close> can and cannot change.\<close>

lemmas body_splits = sum.splits pyval.splits prod.splits option.splits if_splits

lemma optimize_attr_raise_objs:
  "optimize_attr opt p a s = (Inl e, s') \<Longrightarrow> objs s' = objs s"
  by (auto simp: optimize_attr_def setattr_def Let_def split: body_splits)


lemma optimize_attr_shape:
  "dir_list (objs (snd (optimize_attr opt p a s)) q) = dir_list (objs s q)
   \<and> read_only (objs (snd (optimize_attr opt p a s)) q) = read_only (objs s q)
   \<and> getter (objs (snd (optimize_attr opt p a s)) q) = getter (objs s q)
   \<and> set_raises (objs (snd (optimize_attr opt p a s)) q) = set_raises (objs s q)"
  by (auto simp: optimize_attr_def setattr_def Let_def split: body_splits)

lemma optimize_attr_other_attr:
  "b \<noteq> a \<Longrightarrow> attrs (objs (snd (optimize_attr opt p a s)) q) b = attrs (objs s q) b"
  by (auto simp: optimize_attr_def setattr_def Let_def split: body_splits)


lemma snd_try_optimize_attr:
  "snd (try_optimize_attr opt p a s) = snd (optimize_attr opt p a s)"
  by (auto simp: try_optimize_attr_def split: prod.splits sum.splits)

lemma snd_optimize_pipeline:
  "dir_list (objs s p) = Inr names
     \<Longrightarrow> snd (optimize_pipeline opt p s) = snd (sweep opt p names s)"
  by (simp add: optimize_pipeline_def split: prod.splits sum.splits)

lemma snd_optimize_pipeline_dir_raises:
  "dir_list (objs s p) = Inl e \<Longrightarrow> optimize_pipeline opt p s = (Inl e, s)"
  by (simp add: optimize_pipeline_def)


lemma sweep_shape:
  "dir_list (objs (snd (sweep opt p as s)) q) = dir_list (objs s q)
   \<and> read_only (objs (snd (sweep opt p as s)) q) = read_only (objs s q)
   \<and> getter (objs (snd (sweep opt p as s)) q) = getter (objs s q)
   \<and> set_raises (objs (snd (sweep opt p as s)) q) = set_raises (objs s q)"
proof (induction as arbitrary: s)
  case Nil
  then show ?case by simp
next
  case (Cons a as)
  obtain r s' where step: "try_optimize_attr opt p a s = (r, s')"
    by (cases "try_optimize_attr opt p a s")
  then have s': "s' = snd (optimize_attr opt p a s)"
    by (metis snd_conv snd_try_optimize_attr)
  show ?case
  proof (cases r)
    case (Inl e)
    with step s' show ?thesis
      by (simp add: optimize_attr_shape)
  next
    case (Inr u)
    with step have "sweep opt p (a # as) s = sweep opt p as s'"
      by simp
    with Cons.IH [of s'] s' show ?thesis
      by (simp add: optimize_attr_shape)
  qed
qed

lemma sweep_attr_notin:
  "b \<notin> set as \<Longrightarrow> attrs (objs (snd (sweep opt p as s)) q) b = attrs (objs s q) b"
proof (induction as arbitrary: s)
  case Nil
  then show ?case by simp
next
  case (Cons a as)
  have "attrs (objs (snd (try_optimize_attr opt p a s)) q) b = attrs (objs s q) b"
    using Cons.prems by (simp add: snd_try_optimize_attr optimize_attr_other_attr)
  with Cons show ?case
    by (auto split: prod.splits sum.splits)
qed

lemma getattr_stored:
  "a \<notin> set (read_only (objs s p)) \<Longrightarrow> getattr s p a = attrs (objs s p) a"
  by (simp add: getattr_def)

lemma sweep_stored_notin:
  assumes "b \<notin> set as" and "b \<notin> set (read_only (objs s q))"
  shows "getattr (snd (sweep opt p as s)) q b = getattr s q b"
  using assms by (simp add: getattr_stored sweep_shape sweep_attr_notin)


text \<open>\<^verbatim>\<open>AttributeError\<close> never leaves the loop.\<close>

lemma sweep_never_AttributeError: "fst (sweep opt p as s) \<noteq> Inl AttributeError"
  by (induction as arbitrary: s)
     (auto simp: try_optimize_attr_def split: prod.splits sum.splits if_splits)

lemma optimize_pipeline_never_AttributeError:
  "dir_list (objs s p) = Inr names \<Longrightarrow> fst (optimize_pipeline opt p s) \<noteq> Inl AttributeError"
  using sweep_never_AttributeError [of opt p names s]
  by (auto simp: optimize_pipeline_def split: prod.splits sum.splits)

text \<open>The calls at which the body of the \<^verbatim>\<open>try\<close> can raise, all of them.\<close>

lemma optimize_attr_raises_iff:
  "fst (optimize_attr opt p a s1) = Inl e \<longleftrightarrow>
     (getattr s1 p a = Inl e
      \<or> (\<exists>x. getattr s1 p a = Inr (Module x) \<and>
            (eval_error s1 x = Some e
             \<or> eval_error s1 x = None \<and>
               (getattr s1 p ''text_encoder'' = Inl e
                \<or> (\<exists>te. getattr s1 p ''text_encoder'' = Inr te \<and>
                      (get_dtype (module_eval s1 x) te = Inl e
                       \<or> (\<exists>dt. get_dtype (module_eval s1 x) te = Inr dt \<and>
                             ((\<exists>h. opt (mods (module_eval s1 x)) x dt = (Inl e, h))
                              \<or> (\<exists>r h. opt (mods (module_eval s1 x)) x dt = (Inr r, h)
                                    \<and> fst (setattr ((module_eval s1 x)\<lparr>mods := h\<rparr>) p a r) = Inl e)))))))))"
  by (auto simp: optimize_attr_def Let_def split: sum.splits pyval.splits prod.splits option.splits)

text \<open>
  Each of these calls does raise on some store: a getter, \<^verbatim>\<open>.eval()\<close> of a class that
  refuses, \<^verbatim>\<open>.eval()\<close> on submodules nested deeper than the interpreter allows, the
  getter of \<^verbatim>\<open>text_encoder\<close>, \<^verbatim>\<open>.dtype\<close>, \<^verbatim>\<open>ipex.optimize\<close> and \<^verbatim>\<open>setattr\<close>.
\<close>

lemma raise_sites_reachable:
  "fst (optimize_pipeline ipex_inplace 0
     (sd_state\<lparr>objs := (objs sd_state)(0 := (objs sd_state 0)
        \<lparr>attrs := (attrs (objs sd_state 0))(''unet'' := Inl RuntimeError)\<rparr>)\<rparr>)) = Inl RuntimeError
   \<and> fst (optimize_pipeline ipex_inplace 0
     (sd_state\<lparr>mods := (mods sd_state)(2 := (mods sd_state 2)\<lparr>eval_raises := Some ValueError\<rparr>)\<rparr>))
     = Inl ValueError
   \<and> fst (optimize_pipeline ipex_inplace 0 (sd_state\<lparr>recursion_limit := Suc 0\<rparr>)) = Inl RuntimeError
   \<and> fst (optimize_pipeline ipex_inplace 0
     (sd_state\<lparr>objs := (objs sd_state)(0 := (objs sd_state 0)
        \<lparr>attrs := (attrs (objs sd_state 0))(''text_encoder'' := Inl OSError)\<rparr>)\<rparr>)) = Inl OSError
   \<and> fst (optimize_pipeline ipex_inplace 0
     (sd_state\<lparr>mods := (mods sd_state)(1 := (mods sd_state 1)\<lparr>mod_dtype := Inl RuntimeError\<rparr>)\<rparr>))
     = Inl RuntimeError
   \<and> fst (optimize_pipeline (ipex_raising MemoryError) 0 sd_state) = Inl MemoryError
   \<and> fst (optimize_pipeline ipex_inplace 0
     (sd_state\<lparr>objs := (objs sd_state)(0 := (objs sd_state 0)
        \<lparr>set_raises := (\<lambda>n. if n = ''unet'' then Some ValueError else None)\<rparr>)\<rparr>)) = Inl ValueError"
  by (simp add: model_defs fixture_defs train_False_numeral)

text \<open>Without a text encoder every step ends in the handler, after \<^verbatim>\<open>.eval()\<close>.\<close>

lemma try_optimize_attr_no_text_encoder:
  assumes "getattr s p ''text_encoder'' = Inl AttributeError"
    and "\<forall>e. getattr s p a = Inl e \<longrightarrow> e = AttributeError"
    and "\<forall>x. getattr s p a = Inr (Module x) \<longrightarrow> eval_error s x = None"
  shows "try_optimize_attr opt p a s =
     (Inr (), case getattr s p a of Inr (Module x) \<Rightarrow> module_eval s x | _ \<Rightarrow> s)"
  using assms
  by (auto simp: try_optimize_attr_def optimize_attr_def Let_def split: sum.splits pyval.splits)

lemma sweep_no_text_encoder:
  assumes "getattr s p ''text_encoder'' = Inl AttributeError"
    and "\<forall>a\<in>set as. \<forall>e. getattr s p a = Inl e \<longrightarrow> e = AttributeError"
    and "\<forall>a\<in>set as. \<forall>x. getattr s p a = Inr (Module x) \<longrightarrow> eval_error s x = None"
  shows "sweep opt p as s =
     (Inr (), s\<lparr>mods := \<lambda>y. if \<exists>a\<in>set as. \<exists>x. getattr s p a = Inr (Module x) \<and> submodule (mods s) x y
                             then (mods s y)\<lparr>training := False\<rparr> else mods s y\<rparr>)"
  using assms
proof (induction as arbitrary: s)
  case Nil
  then show ?case by simp
next
  case (Cons a as)
  define s' where "s' = (case getattr s p a of Inr (Module x) \<Rightarrow> module_eval s x | _ \<Rightarrow> s)"
  have step: "try_optimize_attr opt p a s = (Inr (), s')"
    unfolding s'_def using Cons.prems by (intro try_optimize_attr_no_text_encoder) auto
  have same: "getattr s' p b = getattr s p b" for b
    by (simp add: s'_def split: sum.splits pyval.splits)
  have err: "eval_error s' z = eval_error s z" for z
    by (simp add: s'_def eval_error_module_eval split: sum.splits pyval.splits)
  have sub: "submodule (mods s') z y = submodule (mods s) z y" for z y
    by (simp add: s'_def submodule_module_eval split: sum.splits pyval.splits)
  have rest: "sweep opt p as s' =
     (Inr (), s'\<lparr>mods := \<lambda>y. if \<exists>a\<in>set as. \<exists>x. getattr s' p a = Inr (Module x) \<and> submodule (mods s') x y
                             then (mods s' y)\<lparr>training := False\<rparr> else mods s' y\<rparr>)"
    using Cons.prems by (intro Cons.IH) (auto simp: same err)
  have now: "mods s' y = (if \<exists>x. getattr s p a = Inr (Module x) \<and> submodule (mods s) x y
                          then (mods s y)\<lparr>training := False\<rparr> else mods s y)" for y
  proof (cases "\<exists>x. getattr s p a = Inr (Module x)")
    case True
    then obtain x where x: "getattr s p a = Inr (Module x)" by blast
    then have "eval_error s x = None"
      using Cons.prems(3) by simp
    then show ?thesis
      using x by (simp add: s'_def module_eval_exact)
  next
    case False
    then show ?thesis
      by (auto simp: s'_def split: sum.splits pyval.splits)
  qed
  have frame: "objs s' = objs s" "recursion_limit s' = recursion_limit s"
    by (simp_all add: s'_def split: sum.splits pyval.splits)
  have "s'\<lparr>mods := \<lambda>y. if \<exists>a\<in>set as. \<exists>x. getattr s' p a = Inr (Module x) \<and> submodule (mods s') x y
                             then (mods s' y)\<lparr>training := False\<rparr> else mods s' y\<rparr>
      = s\<lparr>mods := \<lambda>y. if \<exists>b\<in>set (a # as). \<exists>x. getattr s p b = Inr (Module x) \<and> submodule (mods s) x y
                             then (mods s y)\<lparr>training := False\<rparr> else mods s y\<rparr>"
    by (rule state.equality) (auto simp: same sub now frame fun_eq_iff)
  with step rest show ?case by simp
qed

text \<open>A run of statements that are all plain calls ends at the first call that raises.\<close>

lemma exec_calls_first_raise:
  "\<forall>c'\<in>set before. raises c' = None \<Longrightarrow> raises c = Some e
     \<Longrightarrow> exec raises (map Call (before @ c # after)) = (Some e, before)"
  by (induction before) auto

lemma exec_cells_first_raise:
  assumes "evs = before @ c # after"
    and "\<forall>c'\<in>set before. raises c' = None" and "raises c = Some e"
  shows "exec raises (map Call evs) = (Some e, before)"
  unfolding assms(1) using assms(2,3) by (rule exec_calls_first_raise)

text \<open>Joining the channels of arrays built from one array.\<close>

lemma stack_rows:
  "map2 (map2 (@)) (map (map g) e) (map (map h) e) = map (map (\<lambda>v. g v @ h v)) e"
  by (simp add: zip_map_map zip_same_conv_map)

section \<open>Claims about optimize\_pipeline\<close>

text \<open>
  C1 (as amended). Let \<open>a\<close> be a name of \<^verbatim>\<open>dir(pipeline)\<close>, listed once, whose value
  is an \<^verbatim>\<open>nn.Module\<close>, and suppose that, in the state the sweep has reached when it
  comes to \<open>a\<close>, nothing raises while \<open>a\<close> is processed: \<^verbatim>\<open>.eval()\<close> returns,
  \<^verbatim>\<open>pipeline.text_encoder\<close> resolves and has a \<^verbatim>\<open>dtype\<close>, \<^verbatim>\<open>ipex.optimize\<close> returns,
  and the attribute can be set. Then \<^verbatim>\<open>ipex.optimize\<close> is applied to the module in eval
  mode with that dtype, and its result is what the attribute \<open>a\<close> of the pipeline holds
  when \<^verbatim>\<open>optimize_pipeline\<close> is done; what \<^verbatim>\<open>optimize_pipeline\<close> returns, when it
  returns, is the pipeline.
\<close>

theorem optimize_pipeline_replaces_module:
  assumes dir: "dir_list (objs s p) = Inr (pre @ a # post)"
    and dist: "distinct (pre @ a # post)"
    and isM: "getattr s p a = Inr (Module x)"
    and pre: "sweep opt p pre s = (Inr (), s1)"
    and ev: "eval_error s1 x = None"
    and te: "getattr s1 p ''text_encoder'' = Inr te"
    and dt: "get_dtype (module_eval s1 x) te = Inr dt"
    and op: "opt (mods (module_eval s1 x)) x dt = (Inr r, h)"
    and rw: "a \<notin> set (read_only (objs s p))"
    and sr: "set_raises (objs s p) a = None"
  shows "getattr (snd (optimize_pipeline opt p s)) p a = Inr r
       \<and> training (mods (module_eval s1 x) x) = False
       \<and> (\<forall>q. fst (optimize_pipeline opt p s) = Inr q \<longrightarrow> q = p)"
proof -
  from dist have a_pre: "a \<notin> set pre" and a_post: "a \<notin> set post"
    by auto
  have s1: "s1 = snd (sweep opt p pre s)"
    using pre by simp
  have isM1: "getattr s1 p a = Inr (Module x)"
    using a_pre rw isM by (simp add: s1 sweep_stored_notin)
  have rw1: "a \<notin> set (read_only (objs s1 p))"
    using rw by (simp add: s1 sweep_shape)
  have sr1: "set_raises (objs s1 p) a = None"
    using sr by (simp add: s1 sweep_shape)
  define s2 where "s2 = snd (setattr ((module_eval s1 x)\<lparr>mods := h\<rparr>) p a r)"
  have step: "optimize_attr opt p a s1 = (Inr (), s2)"
    using isM1 ev te dt op rw1 sr1
    by (simp add: optimize_attr_def Let_def setattr_def s2_def)
  have rw2: "a \<notin> set (read_only (objs s2 p))"
    using rw1 sr1 by (simp add: s2_def setattr_def)
  have bound: "getattr s2 p a = Inr r"
    using rw1 sr1 by (simp add: s2_def setattr_def getattr_def)
  have try_step: "try_optimize_attr opt p a s1 = (Inr (), s2)"
    using step by (simp add: try_optimize_attr_def)
  have all: "sweep opt p (pre @ a # post) s = sweep opt p post s2"
    using pre try_step by (simp add: sweep_append)
  have "getattr (snd (sweep opt p post s2)) p a = Inr r"
    using a_post rw2 bound by (simp add: sweep_stored_notin)
  then have "getattr (snd (optimize_pipeline opt p s)) p a = Inr r"
    using all by (simp add: snd_optimize_pipeline [OF dir])
  moreover have "training (mods (module_eval s1 x) x) = False"
    using ev by (rule module_eval_training)
  moreover have "\<forall>q. fst (optimize_pipeline opt p s) = Inr q \<longrightarrow> q = p"
    by (auto simp: optimize_pipeline_def split: prod.splits sum.splits)
  ultimately show ?thesis by blast
qed

theorem optimize_pipeline_replaces_module_witness:
  "getattr (snd (optimize_pipeline ipex_inplace 0 sd_state)) 0 ''unet'' = Inr (Module 2)
   \<and> fst (optimize_pipeline ipex_inplace 0 sd_state) = Inr 0"
proof -
  let ?s1 = "snd (sweep ipex_inplace 0 [''scheduler'', ''text_encoder''] sd_state)"
  let ?h = "snd (ipex_inplace (mods (module_eval ?s1 2)) 2 ''torch.bfloat16'')"
  have dir: "dir_list (objs sd_state 0) = Inr ([''scheduler'', ''text_encoder''] @ ''unet'' # [])"
    by (simp add: fixture_defs)
  have dist: "distinct ([''scheduler'', ''text_encoder''] @ ''unet'' # [])"
    by simp
  have isM: "getattr sd_state 0 ''unet'' = Inr (Module 2)"
    by (simp add: model_defs fixture_defs)
  have pre: "sweep ipex_inplace 0 [''scheduler'', ''text_encoder''] sd_state = (Inr (), ?s1)"
    by (simp add: prod_eq_iff model_defs fixture_defs train_False_numeral)
  have ev: "eval_error ?s1 2 = None"
    by (simp add: model_defs fixture_defs train_False_numeral)
  have te: "getattr ?s1 0 ''text_encoder'' = Inr (Module 1)"
    by (simp add: model_defs fixture_defs train_False_numeral)
  have dt: "get_dtype (module_eval ?s1 2) (Module 1) = Inr ''torch.bfloat16''"
    by (simp add: model_defs fixture_defs train_False_numeral)
  have op: "ipex_inplace (mods (module_eval ?s1 2)) 2 ''torch.bfloat16'' = (Inr (Module 2), ?h)"
    by (simp add: ipex_inplace_def)
  have rw: "''unet'' \<notin> set (read_only (objs sd_state 0))"
    by (simp add: fixture_defs)
  have sr: "set_raises (objs sd_state 0) ''unet'' = None"
    by (simp add: fixture_defs)
  have ret: "fst (optimize_pipeline ipex_inplace 0 sd_state) = Inr 0"
    by (simp add: model_defs fixture_defs train_False_numeral)
  show ?thesis
    using optimize_pipeline_replaces_module [OF dir dist isM pre ev te dt op rw sr] ret by simp
qed

text \<open>
  C1 as stated fails on a pipeline without a text encoder: \<open>unet\<close> is a name of
  \<^verbatim>\<open>dir(pipeline)\<close> and holds a module, the call returns, and the attribute still holds
  the module that \<^verbatim>\<open>ipex.optimize\<close> never saw (every module it returns is marked).
\<close>

theorem unet_left_unoptimized:
  "dir_list (objs unet_state 0) = Inr [''scheduler'', ''unet'']
   \<and> getattr unet_state 0 ''unet'' = Inr (Module 2)
   \<and> fst (optimize_pipeline ipex_inplace 0 unet_state) = Inr 0
   \<and> getattr (snd (optimize_pipeline ipex_inplace 0 unet_state)) 0 ''unet'' = Inr (Module 2)
   \<and> ipex_optimized (mods (snd (optimize_pipeline ipex_inplace 0 unet_state)) 2) = None
   \<and> ipex_optimized (snd (ipex_inplace (mods (module_eval unet_state 2)) 2 ''torch.bfloat16'') 2)
       = Some ''torch.bfloat16''"
  by (simp add: model_defs fixture_defs train_False_numeral)

text \<open>
  C2 (as amended). \<^verbatim>\<open>dir(pipeline)\<close> is called outside the \<^verbatim>\<open>try\<close>: whatever it
  raises reaches the caller of \<^verbatim>\<open>optimize_pipeline\<close>. While an attribute is processed,
  a library call can raise at six places: the getter of the attribute, \<^verbatim>\<open>.eval()\<close>, the
  getter of \<^verbatim>\<open>text_encoder\<close>, \<^verbatim>\<open>.dtype\<close>, \<^verbatim>\<open>ipex.optimize\<close> and \<^verbatim>\<open>setattr\<close>.
  An exception other than \<^verbatim>\<open>AttributeError\<close> raised at any of them is not caught: it is
  what the caller of \<^verbatim>\<open>optimize_pipeline\<close> gets. An \<^verbatim>\<open>AttributeError\<close> raised at any
  of them is caught, and the sweep goes on with the next name. In the three notebooks no
  statement stands in a \<^verbatim>\<open>try\<close>: the first call that raises ends the run with its
  exception.
\<close>

theorem library_exception_propagates:
  "(dir_list (objs s p) = Inl e \<longrightarrow> optimize_pipeline opt p s = (Inl e, s))
   \<and> (dir_list (objs s p) = Inr (pre @ a # post) \<and> sweep opt p pre s = (Inr (), s1)
        \<and> (getattr s1 p a = Inl e
            \<or> (\<exists>x. getattr s1 p a = Inr (Module x) \<and>
                  (eval_error s1 x = Some e
                   \<or> eval_error s1 x = None \<and>
                     (getattr s1 p ''text_encoder'' = Inl e
                      \<or> (\<exists>te. getattr s1 p ''text_encoder'' = Inr te \<and>
                            (get_dtype (module_eval s1 x) te = Inl e
                             \<or> (\<exists>dt. get_dtype (module_eval s1 x) te = Inr dt \<and>
                                   ((\<exists>h. opt (mods (module_eval s1 x)) x dt = (Inl e, h))
                                    \<or> (\<exists>r h. opt (mods (module_eval s1 x)) x dt = (Inr r, h)
                                          \<and> fst (setattr ((module_eval s1 x)\<lparr>mods := h\<rparr>) p a r)
                                              = Inl e)))))))))
      \<longrightarrow> (e \<noteq> AttributeError \<longrightarrow> fst (optimize_pipeline opt p s) = Inl e)
        \<and> (e = AttributeError \<longrightarrow>
              fst (try_optimize_attr opt p a s1) = Inr ()
              \<and> sweep opt p (pre @ a # post) s
                  = sweep opt p post (snd (optimize_attr opt p a s1))))
   \<and> (\<forall>raises before c after e'.
         (\<forall>c'\<in>set before. raises c' = None) \<and> raises c = Some e' \<longrightarrow>
           (simple_pytorch_sd username = before @ c # after
              \<longrightarrow> exec raises (simple_pytorch_sd_cells username) = (Some e', before))
         \<and> (openvino_sd username model_dir_exists text_prompt num_steps seed = before @ c # after
              \<longrightarrow> exec raises (openvino_sd_cells username model_dir_exists text_prompt num_steps seed)
                    = (Some e', before))
         \<and> (controlnet_generate = before @ c # after
              \<longrightarrow> exec raises controlnet_generate_cells = (Some e', before)))"
proof -
  have outside: "dir_list (objs s p) = Inl e \<longrightarrow> optimize_pipeline opt p s = (Inl e, s)"
    by (simp add: snd_optimize_pipeline_dir_raises)
  have inside: "dir_list (objs s p) = Inr (pre @ a # post) \<and> sweep opt p pre s = (Inr (), s1)
        \<and> (getattr s1 p a = Inl e
            \<or> (\<exists>x. getattr s1 p a = Inr (Module x) \<and>
                  (eval_error s1 x = Some e
                   \<or> eval_error s1 x = None \<and>
                     (getattr s1 p ''text_encoder'' = Inl e
                      \<or> (\<exists>te. getattr s1 p ''text_encoder'' = Inr te \<and>
                            (get_dtype (module_eval s1 x) te = Inl e
                             \<or> (\<exists>dt. get_dtype (module_eval s1 x) te = Inr dt \<and>
                                   ((\<exists>h. opt (mods (module_eval s1 x)) x dt = (Inl e, h))
                                    \<or> (\<exists>r h. opt (mods (module_eval s1 x)) x dt = (Inr r, h)
                                          \<and> fst (setattr ((module_eval s1 x)\<lparr>mods := h\<rparr>) p a r)
                                              = Inl e)))))))))
      \<longrightarrow> (e \<noteq> AttributeError \<longrightarrow> fst (optimize_pipeline opt p s) = Inl e)
        \<and> (e = AttributeError \<longrightarrow>
              fst (try_optimize_attr opt p a s1) = Inr ()
              \<and> sweep opt p (pre @ a # post) s
                  = sweep opt p post (snd (optimize_attr opt p a s1)))"
  proof
    assume site: "dir_list (objs s p) = Inr (pre @ a # post) \<and> sweep opt p pre s = (Inr (), s1)
        \<and> (getattr s1 p a = Inl e
            \<or> (\<exists>x. getattr s1 p a = Inr (Module x) \<and>
                  (eval_error s1 x = Some e
                   \<or> eval_error s1 x = None \<and>
                     (getattr s1 p ''text_encoder'' = Inl e
                      \<or> (\<exists>te. getattr s1 p ''text_encoder'' = Inr te \<and>
                            (get_dtype (module_eval s1 x) te = Inl e
                             \<or> (\<exists>dt. get_dtype (module_eval s1 x) te = Inr dt \<and>
                                   ((\<exists>h. opt (mods (module_eval s1 x)) x dt = (Inl e, h))
                                    \<or> (\<exists>r h. opt (mods (module_eval s1 x)) x dt = (Inr r, h)
                                          \<and> fst (setattr ((module_eval s1 x)\<lparr>mods := h\<rparr>) p a r)
                                              = Inl e)))))))))"
    then have dir: "dir_list (objs s p) = Inr (pre @ a # post)"
      and pre: "sweep opt p pre s = (Inr (), s1)"
      by simp_all
    from site have "fst (optimize_attr opt p a s1) = Inl e"
      unfolding optimize_attr_raises_iff by blast
    then obtain s2 where body: "optimize_attr opt p a s1 = (Inl e, s2)"
      by (cases "optimize_attr opt p a s1") auto
    have handler: "try_optimize_attr opt p a s1 =
        (if e = AttributeError then (Inr (), s2) else (Inl e, s2))"
      using body by (simp add: try_optimize_attr_def)
    have loop: "sweep opt p (pre @ a # post) s =
        (if e = AttributeError then sweep opt p post s2 else (Inl e, s2))"
      using pre handler by (simp add: sweep_append)
    have "e \<noteq> AttributeError \<longrightarrow> fst (optimize_pipeline opt p s) = Inl e"
      using loop dir by (simp add: optimize_pipeline_def)
    moreover have "e = AttributeError \<longrightarrow>
        fst (try_optimize_attr opt p a s1) = Inr ()
        \<and> sweep opt p (pre @ a # post) s = sweep opt p post (snd (optimize_attr opt p a s1))"
      using loop handler body by simp
    ultimately show "(e \<noteq> AttributeError \<longrightarrow> fst (optimize_pipeline opt p s) = Inl e)
        \<and> (e = AttributeError \<longrightarrow>
              fst (try_optimize_attr opt p a s1) = Inr ()
              \<and> sweep opt p (pre @ a # post) s
                  = sweep opt p post (snd (optimize_attr opt p a s1)))"
      by blast
  qed
  have cells: "\<forall>raises before c after e'.
      (\<forall>c'\<in>set before. raises c' = None) \<and> raises c = Some e' \<longrightarrow>
        (simple_pytorch_sd username = before @ c # after
           \<longrightarrow> exec raises (simple_pytorch_sd_cells username) = (Some e', before))
      \<and> (openvino_sd username model_dir_exists text_prompt num_steps seed = before @ c # after
           \<longrightarrow> exec raises (openvino_sd_cells username model_dir_exists text_prompt num_steps seed)
                 = (Some e', before))
      \<and> (controlnet_generate = before @ c # after
           \<longrightarrow> exec raises controlnet_generate_cells = (Some e', before))"
    unfolding simple_pytorch_sd_cells_def openvino_sd_cells_def controlnet_generate_cells_def
    using exec_cells_first_raise by blast
  show ?thesis
    by (rule conjI [OF outside conjI [OF inside cells]])
qed

theorem library_exception_propagates_witness:
  "optimize_pipeline ipex_inplace 0 no_dir_state = (Inl AttributeError, no_dir_state)
   \<and> fst (optimize_pipeline (ipex_raising MemoryError) 0 sd_state) = Inl MemoryError
   \<and> fst (try_optimize_attr (ipex_raising AttributeError) 0 ''text_encoder'' sd_state) = Inr ()
   \<and> fst (exec no_xpu (simple_pytorch_sd_cells (Some ''u''))) = Some RuntimeError"
proof -
  have no_dir: "dir_list (objs no_dir_state 0) = Inl AttributeError"
    by (simp add: fixture_defs)
  have dir: "dir_list (objs sd_state 0) = Inr ([''scheduler''] @ ''text_encoder'' # [''unet''])"
    by (simp add: fixture_defs)
  have pre: "sweep opt 0 [''scheduler''] sd_state = (Inr (), sd_state)" for opt
    by (simp add: try_optimize_attr_def optimize_attr_def getattr_def fixture_defs)
  have body: "fst (optimize_attr (ipex_raising e) 0 ''text_encoder'' sd_state) = Inl e" for e
    by (simp add: model_defs fixture_defs train_False_numeral)
  note raised = body [unfolded optimize_attr_raises_iff]
  note top = library_exception_propagates
    [of no_dir_state 0 AttributeError ipex_inplace, THEN conjunct1, THEN mp, OF no_dir]
  note mem = library_exception_propagates
    [of sd_state 0 MemoryError "ipex_raising MemoryError" "[''scheduler'']" "''text_encoder''"
       "[''unet'']" sd_state, THEN conjunct2, THEN conjunct1, THEN mp, OF conjI [OF dir conjI [OF pre raised]]]
  note att = library_exception_propagates
    [of sd_state 0 AttributeError "ipex_raising AttributeError" "[''scheduler'']" "''text_encoder''"
       "[''unet'']" sd_state, THEN conjunct2, THEN conjunct1, THEN mp, OF conjI [OF dir conjI [OF pre raised]]]
  note cells = library_exception_propagates
    [of sd_state 0 MemoryError ipex_inplace "[]" "''a''" "[]" sd_state "Some ''u''",
     THEN conjunct2, THEN conjunct2]
  let ?before = "take 6 (simple_pytorch_sd (Some ''u''))"
  let ?after = "drop 7 (simple_pytorch_sd (Some ''u''))"
  have split: "simple_pytorch_sd (Some ''u'') = ?before @ To ''pipe'' ''xpu'' # ?after"
    by (simp add: simple_pytorch_sd_def)
  have quiet: "\<forall>c'\<in>set ?before. no_xpu c' = None"
    by (simp add: simple_pytorch_sd_def no_xpu_def)
  have loud: "no_xpu (To ''pipe'' ''xpu'') = Some RuntimeError"
    by (simp add: no_xpu_def)
  have "exec no_xpu (simple_pytorch_sd_cells (Some ''u'')) = (Some RuntimeError, ?before)"
    using cells split quiet loud by blast
  moreover have "fst (optimize_pipeline (ipex_raising MemoryError) 0 sd_state) = Inl MemoryError"
    using mem by simp
  moreover have "fst (try_optimize_attr (ipex_raising AttributeError) 0 ''text_encoder'' sd_state) = Inr ()"
    using att by simp
  ultimately show ?thesis
    using top by simp
qed

text \<open>
  C2 as stated fails: an \<^verbatim>\<open>AttributeError\<close> raised inside \<^verbatim>\<open>ipex.optimize\<close> is
  caught by \<^verbatim>\<open>optimize_pipeline\<close>, which returns the pipeline as if nothing had happened.
\<close>

theorem library_attribute_error_caught:
  "fst (ipex_raising AttributeError (mods (module_eval sd_state 1)) 1 ''torch.bfloat16'')
     = Inl AttributeError
   \<and> fst (optimize_pipeline (ipex_raising AttributeError) 0 sd_state) = Inr 0"
  by (simp add: model_defs fixture_defs train_False_numeral)

text \<open>
  C3. When processing the attribute \<open>a\<close> raises \<^verbatim>\<open>AttributeError\<close>, the sweep goes on
  with the names after \<open>a\<close>, from the state the exception left, and nothing records the
  error; an exception of any other class ends \<^verbatim>\<open>optimize_pipeline\<close> and reaches the
  caller. In both cases the attribute bindings are those from before \<open>a\<close> was processed:
  nothing set earlier is undone.
\<close>

theorem attribute_error_skipped:
  assumes dir: "dir_list (objs s p) = Inr (pre @ a # post)"
    and pre: "sweep opt p pre s = (Inr (), s1)"
    and raised: "optimize_attr opt p a s1 = (Inl e, s2)"
  shows "objs s2 = objs s1
       \<and> (if e = AttributeError
          then sweep opt p (pre @ a # post) s = sweep opt p post s2
             \<and> optimize_pipeline opt p s =
                 (case sweep opt p post s2 of
                    (Inl e', s') \<Rightarrow> (Inl e', s')
                  | (Inr u, s') \<Rightarrow> (Inr p, s'))
          else optimize_pipeline opt p s = (Inl e, s2))"
proof -
  have "objs s2 = objs s1"
    using raised by (rule optimize_attr_raise_objs)
  moreover have "try_optimize_attr opt p a s1 =
      (if e = AttributeError then (Inr (), s2) else (Inl e, s2))"
    using raised by (simp add: try_optimize_attr_def)
  then have "sweep opt p (pre @ a # post) s =
      (if e = AttributeError then sweep opt p post s2 else (Inl e, s2))"
    using pre by (simp add: sweep_append)
  ultimately show ?thesis
    using dir by (simp add: optimize_pipeline_def)
qed

theorem attribute_error_skipped_witness:
  "objs (module_eval unet_state 2) = objs unet_state
   \<and> optimize_pipeline ipex_inplace 0 unet_state = (Inr 0, module_eval unet_state 2)"
proof -
  have dir: "dir_list (objs unet_state 0) = Inr ([''scheduler''] @ ''unet'' # [])"
    by (simp add: fixture_defs)
  have pre: "sweep ipex_inplace 0 [''scheduler''] unet_state = (Inr (), unet_state)"
    by (simp add: try_optimize_attr_def optimize_attr_def getattr_def fixture_defs)
  have ev: "eval_error unet_state 2 = None"
    by (simp add: eval_error_def fixture_defs train_False_numeral)
  have raised: "optimize_attr ipex_inplace 0 ''unet'' unet_state
      = (Inl AttributeError, module_eval unet_state 2)"
    using ev by (simp add: optimize_attr_def getattr_def unet_state_def unet_pipeline_def plain_object_def)
  show ?thesis
    using attribute_error_skipped [OF dir pre raised] by simp
qed

text \<open>
  C7 (as amended). If \<^verbatim>\<open>pipeline.text_encoder\<close> raises \<^verbatim>\<open>AttributeError\<close>, no getter
  of a name of \<^verbatim>\<open>dir(pipeline)\<close> raises anything else, and \<^verbatim>\<open>.eval()\<close> raises on none
  of the modules these names hold, then \<^verbatim>\<open>optimize_pipeline\<close> returns the pipeline with
  every attribute binding as it was and without calling \<^verbatim>\<open>ipex.optimize\<close>. It is not a
  no-op: every module held by a name of \<^verbatim>\<open>dir(pipeline)\<close>, and every submodule of such
  a module, is in eval mode afterwards; nothing else changes. The call changes nothing at
  all exactly when all these modules and submodules were in eval mode already.
\<close>

theorem no_text_encoder_only_eval:
  assumes dir: "dir_list (objs s p) = Inr names"
    and no_te: "getattr s p ''text_encoder'' = Inl AttributeError"
    and getters: "\<forall>a\<in>set names. \<forall>e. getattr s p a = Inl e \<longrightarrow> e = AttributeError"
    and evals: "\<forall>a\<in>set names. \<forall>x. getattr s p a = Inr (Module x) \<longrightarrow> eval_error s x = None"
  shows "optimize_pipeline opt p s =
     (Inr p, s\<lparr>mods := \<lambda>y. if \<exists>a\<in>set names. \<exists>x.
                                   getattr s p a = Inr (Module x) \<and> submodule (mods s) x y
                             then (mods s y)\<lparr>training := False\<rparr> else mods s y\<rparr>)
    \<and> (optimize_pipeline opt p s = (Inr p, s) \<longleftrightarrow>
         (\<forall>a\<in>set names. \<forall>x y.
            getattr s p a = Inr (Module x) \<and> submodule (mods s) x y \<longrightarrow> \<not> training (mods s y)))"
proof -
  let ?held = "\<lambda>y. \<exists>a\<in>set names. \<exists>x.
                                   getattr s p a = Inr (Module x) \<and> submodule (mods s) x y"
  let ?h = "\<lambda>y. if ?held y then (mods s y)\<lparr>training := False\<rparr> else mods s y"
  have run: "optimize_pipeline opt p s = (Inr p, s\<lparr>mods := ?h\<rparr>)"
    using sweep_no_text_encoder [OF no_te getters evals, of opt] dir
    by (simp add: optimize_pipeline_def)
  have flag: "(m\<lparr>training := False\<rparr> = m) = (\<not> training m)" for m :: module
    by (cases m) auto
  have "(s\<lparr>mods := ?h\<rparr> = s) = (?h = mods s)"
    by (cases s) auto
  also have "\<dots> = (\<forall>y. ?held y \<longrightarrow> \<not> training (mods s y))"
    by (auto simp: fun_eq_iff flag)
  finally have "(optimize_pipeline opt p s = (Inr p, s)) = (\<forall>y. ?held y \<longrightarrow> \<not> training (mods s y))"
    using run by simp
  then show ?thesis
    using run by blast
qed

theorem no_text_encoder_only_eval_witness:
  "fst (optimize_pipeline ipex_inplace 0 unet_state) = Inr 0
   \<and> objs (snd (optimize_pipeline ipex_inplace 0 unet_state)) = objs unet_state
   \<and> optimize_pipeline ipex_inplace 0
        (unet_state\<lparr>mods := \<lambda>x. (mods unet_state x)\<lparr>training := False\<rparr>\<rparr>)
      = (Inr 0, unet_state\<lparr>mods := \<lambda>x. (mods unet_state x)\<lparr>training := False\<rparr>\<rparr>)"
proof -
  let ?quiet = "unet_state\<lparr>mods := \<lambda>x. (mods unet_state x)\<lparr>training := False\<rparr>\<rparr>"
  let ?names = "[''scheduler'', ''unet'']"
  have dir: "dir_list (objs unet_state 0) = Inr ?names"
    by (simp add: fixture_defs)
  have no_te: "getattr unet_state 0 ''text_encoder'' = Inl AttributeError"
    by (simp add: getattr_def fixture_defs)
  have getters: "\<forall>a\<in>set ?names. \<forall>e. getattr unet_state 0 a = Inl e \<longrightarrow> e = AttributeError"
    by (simp add: getattr_def fixture_defs)
  have evals: "\<forall>a\<in>set ?names.
      \<forall>x. getattr unet_state 0 a = Inr (Module x) \<longrightarrow> eval_error unet_state x = None"
    by (simp add: getattr_def eval_error_def fixture_defs train_False_numeral)
  have dir': "dir_list (objs ?quiet 0) = Inr ?names"
    using dir by simp
  have no_te': "getattr ?quiet 0 ''text_encoder'' = Inl AttributeError"
    using no_te by simp
  have getters': "\<forall>a\<in>set ?names. \<forall>e. getattr ?quiet 0 a = Inl e \<longrightarrow> e = AttributeError"
    using getters by simp
  have evals': "\<forall>a\<in>set ?names.
      \<forall>x. getattr ?quiet 0 a = Inr (Module x) \<longrightarrow> eval_error ?quiet x = None"
    by (simp add: getattr_def eval_error_def fixture_defs train_False_numeral)
  have evald: "\<forall>a\<in>set ?names. \<forall>x y.
      getattr ?quiet 0 a = Inr (Module x) \<and> submodule (mods ?quiet) x y
        \<longrightarrow> \<not> training (mods ?quiet y)"
    by simp
  note run = no_text_encoder_only_eval [OF dir no_te getters evals, of ipex_inplace, THEN conjunct1]
  note noop = no_text_encoder_only_eval [OF dir' no_te' getters' evals', of ipex_inplace,
      THEN conjunct2, THEN iffD2, OF evald]
  have "fst (optimize_pipeline ipex_inplace 0 unet_state) = Inr 0"
    by (simp add: run)
  moreover have "objs (snd (optimize_pipeline ipex_inplace 0 unet_state)) = objs unet_state"
    by (simp add: run)
  ultimately show ?thesis
    using noop by simp
qed

text \<open>
  C7 as stated fails: without a text encoder the call is not a no-op. The module held by
  \<open>unet\<close> and its submodule were in training mode before the call and are in eval mode
  after it, because \<^verbatim>\<open>.eval()\<close> runs before \<^verbatim>\<open>pipeline.text_encoder\<close> is read.
\<close>

theorem no_text_encoder_changes_training:
  "getattr unet_state 0 ''text_encoder'' = Inl AttributeError
   \<and> training (mods unet_state 2) \<and> training (mods unet_state 3)
   \<and> \<not> training (mods (snd (optimize_pipeline ipex_inplace 0 unet_state)) 2)
   \<and> \<not> training (mods (snd (optimize_pipeline ipex_inplace 0 unet_state)) 3)
   \<and> snd (optimize_pipeline ipex_inplace 0 unet_state) \<noteq> unet_state"
proof -
  have a: "getattr unet_state 0 ''text_encoder'' = Inl AttributeError"
    by (simp add: getattr_def fixture_defs)
  have b: "training (mods unet_state 2) \<and> training (mods unet_state 3)"
    by (simp add: fixture_defs)
  have c: "\<not> training (mods (snd (optimize_pipeline ipex_inplace 0 unet_state)) 2)
      \<and> \<not> training (mods (snd (optimize_pipeline ipex_inplace 0 unet_state)) 3)"
    by (simp add: model_defs fixture_defs train_False_numeral)
  from b c have "snd (optimize_pipeline ipex_inplace 0 unet_state) \<noteq> unet_state"
    by auto
  with a b c show ?thesis by simp
qed




section \<open>Claims about the Canny edge map\<close>

text \<open>
  C9. The conditioning image is the edge array with a new channel axis, joined with itself
  three times along that axis: the call never fails on a shape mismatch, the image has the
  rows and columns of the edge array, and every pixel has three channels that all carry the
  value of the edge array at that pixel.
\<close>

theorem canny_image_channels_equal:
  "\<exists>img. canny_image cv2_Canny original_image = Inr img
     \<and> img = map (map (\<lambda>v. [v, v, v])) (cv2_Canny original_image 100 200)
     \<and> (\<forall>row\<in>set img. \<forall>px\<in>set row.
           length px = 3 \<and> px ! 0 = px ! 1 \<and> px ! 1 = px ! 2)"
proof -
  let ?e = "cv2_Canny original_image 100 200"
  have "map2 (map2 (@)) (map2 (map2 (@)) (new_axis2 ?e) (new_axis2 ?e)) (new_axis2 ?e)
      = map (map (\<lambda>v. [v, v, v])) ?e"
    unfolding new_axis2_def by (simp only: stack_rows) simp
  then have "canny_image cv2_Canny original_image = Inr (map (map (\<lambda>v. [v, v, v])) ?e)"
    by (simp add: canny_image_def Let_def)
  moreover have "\<forall>row\<in>set (map (map (\<lambda>v. [v, v, v])) ?e). \<forall>px\<in>set row.
      length px = 3 \<and> px ! 0 = px ! 1 \<and> px ! 1 = px ! 2"
    by auto
  ultimately show ?thesis by blast
qed

theorem canny_image_channels_equal_witness:
  "canny_image edges_2x2 [] = Inr [[[0, 0, 0], [255, 255, 255]], [[255, 255, 255], [0, 0, 0]]]"
  using canny_image_channels_equal [of edges_2x2 "[]"]
  by (auto simp: edges_2x2_def)

section \<open>Claims about the notebooks\<close>

lemmas notebook_defs = simple_pytorch_sd_def openvino_sd_def controlnet_generate_def
  files_written_def inference_calls_def steps_def

text \<open>
  C4 (as amended). A run writes at most one PNG file under a name the notebook gives:
  \<^verbatim>\<open>house.png\<close> in the ControlNet notebook, \<^verbatim>\<open>result.png\<close> in the OpenVINO notebook,
  and none in the simple PyTorch notebook, which only displays its image. The OpenVINO
  notebook writes more than that: the Python source \<^verbatim>\<open>notebook_utils.py\<close> and, when the
  directory \<^verbatim>\<open>diffusion_pipeline\<close> does not exist yet, the exported model into it.
\<close>

theorem notebook_files_written:
  "files_written (simple_pytorch_sd username) = []
   \<and> files_written controlnet_generate = [''house.png'']
   \<and> files_written (openvino_sd username model_dir_exists text_prompt num_steps seed)
       = (if model_dir_exists then [''notebook_utils.py'', ''result.png'']
          else [''notebook_utils.py'', ''diffusion_pipeline'', ''result.png''])
   \<and> filter is_png (files_written (openvino_sd username model_dir_exists text_prompt num_steps seed))
       = [''result.png'']
   \<and> is_png ''house.png''"
  by (simp add: notebook_defs is_png_def)

theorem notebook_files_written_witness:
  "files_written (openvino_sd (Some ''u'') False ''a castle'' 20 42)
     = [''notebook_utils.py'', ''diffusion_pipeline'', ''result.png'']
   \<and> files_written controlnet_generate = [''house.png'']"
  using notebook_files_written [of "Some ''u''" False "''a castle''" 20 42]
  by simp

text \<open>
  C4 as stated fails on the OpenVINO notebook: even when the model directory exists, the
  run writes two files, and the first of them is not a PNG image.
\<close>

theorem openvino_writes_python_source:
  "files_written (openvino_sd (Some ''u'') True ''a castle'' 20 42)
     = [''notebook_utils.py'', ''result.png'']
   \<and> \<not> is_png ''notebook_utils.py''"
  by (simp add: notebook_defs is_png_def)

text \<open>
  C5 (as amended). Every notebook makes one inference call and passes it the prompt string
  as its only positional argument. The simple PyTorch notebook passes nothing else; the
  ControlNet notebook also passes the edge image; the OpenVINO notebook also passes the
  step count as \<^verbatim>\<open>num_inference_steps\<close>, and seeds NumPy's generator before the call
  rather than passing the seed. No notebook passes a guidance scale or a seed.
\<close>

theorem notebook_inference_arguments:
  "inference_calls (simple_pytorch_sd username)
     = [([Str ''A cat riding a surfboard on a big wave''], [])]
   \<and> inference_calls controlnet_generate
     = [([Str ''Vivid Watercolor''], [(''image'', Var ''canny_image'')])]
   \<and> inference_calls (openvino_sd username model_dir_exists text_prompt num_steps seed)
     = [([Str text_prompt], [(''num_inference_steps'', Num num_steps)])]
   \<and> takeWhile (\<lambda>e. infer_args e = [])
        (dropWhile (\<lambda>e. e \<noteq> RandomSeed seed)
           (openvino_sd username model_dir_exists text_prompt num_steps seed))
     = [RandomSeed seed]"
  by (simp add: notebook_defs)

theorem notebook_inference_arguments_witness:
  "inference_calls (openvino_sd None True ''a castle'' 20 42)
     = [([Str ''a castle''], [(''num_inference_steps'', Num 20)])]"
  using notebook_inference_arguments [of None True "''a castle''" 20 42]
  by simp

text \<open>
  C5 as stated fails on the simple PyTorch notebook: its inference call gets the prompt and
  no keyword argument, so no step count, no guidance scale and no seed.
\<close>

theorem simple_inference_prompt_only:
  "map snd (inference_calls (simple_pytorch_sd (Some ''u''))) = [[]]"
  by (simp add: notebook_defs)

text \<open>
  C6 (as amended). Every notebook is a straight-line script that loads its model, then
  makes exactly one inference call, then displays or saves the output. The simple PyTorch
  notebook has exactly the six steps in the order setup, install, load, transfer,
  inference, display. The OpenVINO notebook has setup, four installs, one load (the
  device is named in the load and the pipeline compiled for it, with no transfer call),
  inference, save and display. The ControlNet notebook has no setup and no install; it
  moves the edge tensor to the device, loads two checkpoints, moves the pipeline, runs
  inference once and saves.
\<close>

theorem notebook_step_order:
  "steps (simple_pytorch_sd username) = [Setup, Install, Load, Transfer, Inference, Output]
   \<and> steps (openvino_sd username model_dir_exists text_prompt num_steps seed)
       = [Setup, Install, Install, Install, Install, Load, Inference, Output, Output]
   \<and> steps controlnet_generate = [Transfer, Load, Load, Transfer, Inference, Output]
   \<and> length (inference_calls (simple_pytorch_sd username)) = 1
   \<and> length (inference_calls (openvino_sd username model_dir_exists text_prompt num_steps seed)) = 1
   \<and> length (inference_calls controlnet_generate) = 1"
  by (simp add: notebook_defs)

theorem notebook_step_order_witness:
  "steps (openvino_sd (Some ''u'') False ''a castle'' 20 42)
     = [Setup, Install, Install, Install, Install, Load, Inference, Output, Output]
   \<and> steps (simple_pytorch_sd (Some ''u'')) = [Setup, Install, Load, Transfer, Inference, Output]"
  using notebook_step_order [of "Some ''u''" False "''a castle''" 20 42]
  by simp

text \<open>
  C6 as stated fails on the ControlNet notebook: it has neither an environment setup nor a
  dependency install, and it loads two checkpoints.
\<close>

theorem controlnet_no_setup_two_loads:
  "Setup \<notin> set (steps controlnet_generate)
   \<and> Install \<notin> set (steps controlnet_generate)
   \<and> length (filter (\<lambda>st. st = Load) (steps controlnet_generate)) = 2"
  by (simp add: notebook_defs)


end
